theory Spec2Isabelle
  imports Main
begin

section \<open>Document model (Jzon.h)\<close>

text \<open>
  The two exception classes of the library, thrown by the accessors of the document
  model: \<open>TypeException\<close> (a node used as the wrong type) and \<open>NotFoundException\<close>.
  A function of the source that can throw returns \<open>error + 'a\<close> here.
\<close>

datatype error = TypeException | NotFoundException

text \<open>\<open>Value::ValueType\<close> and \<open>Node::Type\<close>. The enumerators of \<open>Node::Type\<close> carry the
  class name as a prefix, since \<open>Parser::Token\<close> has a \<open>T_VALUE\<close> of its own.\<close>

datatype ValueType = VT_NULL | VT_STRING | VT_NUMBER | VT_BOOL

datatype NodeType = Node_T_OBJECT | Node_T_ARRAY | Node_T_VALUE

text \<open>
  The class hierarchy \<open>Node\<close> / \<open>Object\<close> / \<open>Array\<close> / \<open>Value\<close>. An \<open>Object\<close> owns the vector
  \<open>children\<close> of (name, node) pairs, an \<open>Array\<close> the vector \<open>children\<close> of nodes, a \<open>Value\<close>
  the fields \<open>type\<close> and \<open>valueStr\<close>. Children are owned exclusively and copied deeply
  (\<open>GetCopy\<close>), so a node is a value of this datatype and \<open>GetCopy\<close> is the identity.
\<close>

datatype Node =
    Object "(string \<times> Node) list"
  | Array "Node list"
  | Value ValueType string

fun GetType :: "Node \<Rightarrow> NodeType" where
  "GetType (Object children) = Node_T_OBJECT"
| "GetType (Array children) = Node_T_ARRAY"
| "GetType (Value t valueStr) = Node_T_VALUE"

definition IsObject :: "Node \<Rightarrow> bool" where
  "IsObject n = (GetType n = Node_T_OBJECT)"

definition IsArray :: "Node \<Rightarrow> bool" where
  "IsArray n = (GetType n = Node_T_ARRAY)"

definition IsValue :: "Node \<Rightarrow> bool" where
  "IsValue n = (GetType n = Node_T_VALUE)"

text \<open>The virtual kind queries: \<open>Node\<close> answers \<open>false\<close>, \<open>Value\<close> compares its \<open>type\<close>.\<close>

fun IsNull :: "Node \<Rightarrow> bool" where
  "IsNull (Value t valueStr) = (t = VT_NULL)"
| "IsNull _ = False"

fun IsString :: "Node \<Rightarrow> bool" where
  "IsString (Value t valueStr) = (t = VT_STRING)"
| "IsString _ = False"

fun IsNumber :: "Node \<Rightarrow> bool" where
  "IsNumber (Value t valueStr) = (t = VT_NUMBER)"
| "IsNumber _ = False"

fun IsBool :: "Node \<Rightarrow> bool" where
  "IsBool (Value t valueStr) = (t = VT_BOOL)"
| "IsBool _ = False"

subsection \<open>Value accessors\<close>

text \<open>
  \<open>Node::ToString\<close>, \<open>ToInt\<close>, \<open>ToFloat\<close>, \<open>ToDouble\<close> and \<open>ToBool\<close> are virtual: the base
  class throws \<open>TypeException\<close>, \<open>Value\<close> overrides them, \<open>Object\<close> and \<open>Array\<close> do not.
\<close>

definition Value_ToString :: "ValueType \<Rightarrow> string \<Rightarrow> string" where
  "Value_ToString t valueStr = (if t = VT_NULL then ''null'' else valueStr)"

fun ToString :: "Node \<Rightarrow> error + string" where
  "ToString (Value t valueStr) = Inr (Value_ToString t valueStr)"
| "ToString _ = Inl TypeException"

text \<open>
  \<open>Value::ToInt\<close> reads the text with \<open>std::stringstream >> int\<close>. That extraction is the
  standard library's; it is modelled here as the library specifies it for the classic
  locale: leading white space is skipped, an optional sign and the longest run of decimal
  digits are read, no digit at all stores 0, and a value outside the range of a 32-bit
  \<open>int\<close> stores the nearest bound.
\<close>

definition isspace :: "char \<Rightarrow> bool" where
  "isspace c = (c \<in> {CHR '' '', CHR 0x09, CHR 0x0A, CHR 0x0B, CHR 0x0C, CHR 0x0D})"

definition isdigit :: "char \<Rightarrow> bool" where
  "isdigit c = ((48::nat) \<le> of_char c \<and> of_char c \<le> (57::nat))"

definition digit_val :: "char \<Rightarrow> int" where
  "digit_val c = int (of_char c) - 48"

definition decimal :: "string \<Rightarrow> int" where
  "decimal ds = foldl (\<lambda>acc c. 10 * acc + digit_val c) 0 ds"

definition INT_MAX :: int where
  "INT_MAX = 2147483647"

definition INT_MIN :: int where
  "INT_MIN = - 2147483648"

definition extract_int :: "string \<Rightarrow> int" where
  "extract_int s =
     (let s1 = dropWhile isspace s;
          neg = (s1 \<noteq> [] \<and> hd s1 = CHR ''-'');
          s2 = (if s1 \<noteq> [] \<and> (hd s1 = CHR ''-'' \<or> hd s1 = CHR ''+'') then tl s1 else s1);
          ds = takeWhile isdigit s2;
          v = (if neg then - decimal ds else decimal ds)
      in if ds = [] then 0 else max INT_MIN (min INT_MAX v))"

fun ToInt :: "Node \<Rightarrow> error + int" where
  "ToInt (Value t valueStr) = Inr (if t = VT_NUMBER then extract_int valueStr else 0)"
| "ToInt _ = Inl TypeException"

text \<open>
  \<open>ToFloat\<close> and \<open>ToDouble\<close> have the shape of \<open>ToInt\<close>; the floating-point extraction and
  the floating-point zero are parameters of the model.
\<close>

fun ToFloat :: "(string \<Rightarrow> 'f) \<Rightarrow> 'f \<Rightarrow> Node \<Rightarrow> error + 'f" where
  "ToFloat extract zero (Value t valueStr) =
     Inr (if t = VT_NUMBER then extract valueStr else zero)"
| "ToFloat extract zero _ = Inl TypeException"

fun ToDouble :: "(string \<Rightarrow> 'f) \<Rightarrow> 'f \<Rightarrow> Node \<Rightarrow> error + 'f" where
  "ToDouble extract zero (Value t valueStr) =
     Inr (if t = VT_NUMBER then extract valueStr else zero)"
| "ToDouble extract zero _ = Inl TypeException"

fun ToBool :: "Node \<Rightarrow> error + bool" where
  "ToBool (Value t valueStr) = Inr (if t = VT_BOOL then valueStr = ''true'' else False)"
| "ToBool _ = Inl TypeException"

subsection \<open>Escaping\<close>

text \<open>The table \<open>chars\<close>: each character with its two-character escape sequence.
  \<open>CHR 0x5C\<close> is the backslash and \<open>CHR 0x22\<close> the double quote.\<close>

definition chars :: "(char \<times> string) list" where
  "chars =
    [(CHR 0x5C, [CHR 0x5C, CHR 0x5C]), (CHR ''/'', [CHR 0x5C, CHR ''/'']),
     (CHR 0x22, [CHR 0x5C, CHR 0x22]), (CHR 0x0A, [CHR 0x5C, CHR ''n'']),
     (CHR 0x09, [CHR 0x5C, CHR ''t'']), (CHR 0x08, [CHR 0x5C, CHR ''b'']),
     (CHR 0x0C, [CHR 0x5C, CHR ''f'']), (CHR 0x0D, [CHR 0x5C, CHR ''r''])]"

definition nullUnescaped :: char where
  "nullUnescaped = CHR 0x00"

definition nullEscaped :: string where
  "nullEscaped = [CHR 0x00, CHR 0x00]"

fun getEscaped_loop :: "(char \<times> string) list \<Rightarrow> char \<Rightarrow> string" where
  "getEscaped_loop [] c = nullEscaped"
| "getEscaped_loop (chr # rest) c = (if fst chr = c then snd chr else getEscaped_loop rest c)"

definition getEscaped :: "char \<Rightarrow> string" where
  "getEscaped c = getEscaped_loop chars c"

text \<open>
  \<open>getUnescaped\<close> walks the table, but the test inside the loop compares \<open>c1\<close> and \<open>c2\<close> with
  \<open>chars[0].first\<close> and \<open>chars[1].first\<close>, not with the escape sequence of the entry \<open>chr\<close>
  at hand.
\<close>

fun getUnescaped_loop :: "(char \<times> string) list \<Rightarrow> char \<Rightarrow> char \<Rightarrow> char" where
  "getUnescaped_loop [] c1 c2 = nullUnescaped"
| "getUnescaped_loop (chr # rest) c1 c2 =
     (if c1 = fst (chars ! 0) \<and> c2 = fst (chars ! 1) then fst chr
      else getUnescaped_loop rest c1 c2)"

definition getUnescaped :: "char \<Rightarrow> char \<Rightarrow> char" where
  "getUnescaped c1 c2 = getUnescaped_loop chars c1 c2"

fun EscapeString :: "string \<Rightarrow> string" where
  "EscapeString [] = []"
| "EscapeString (c # rest) =
     (let a = getEscaped c
      in if a ! 0 \<noteq> CHR 0x00 then a ! 0 # a ! 1 # EscapeString rest
         else c # EscapeString rest)"

text \<open>
  \<open>UnescapeString\<close>: \<open>c\<close> is the character under the iterator and \<open>c2\<close> the next one, or
  NUL at the end of the string; a hit appends the result of \<open>getUnescaped\<close> and skips
  \<open>c2\<close> when there is one.
\<close>

fun UnescapeString :: "string \<Rightarrow> string" where
  "UnescapeString [] = []"
| "UnescapeString [c] =
     (let a = getUnescaped c (CHR 0x00)
      in if a \<noteq> CHR 0x00 then [a] else [c])"
| "UnescapeString (c # c2 # rest) =
     (let a = getUnescaped c c2
      in if a \<noteq> CHR 0x00 then a # UnescapeString rest
         else c # UnescapeString (c2 # rest))"

subsection \<open>Value constructors and setters\<close>

definition Value_default :: Node where
  "Value_default = Value VT_NULL []"

definition Value_of_string :: "string \<Rightarrow> Node" where
  "Value_of_string v = Value VT_STRING (UnescapeString v)"

definition Value_of_bool :: "bool \<Rightarrow> Node" where
  "Value_of_bool b = Value VT_BOOL (if b then ''true'' else ''false'')"

subsection \<open>Object and Array\<close>

definition Object_Add :: "string \<Rightarrow> Node \<Rightarrow> (string \<times> Node) list \<Rightarrow> (string \<times> Node) list" where
  "Object_Add name node children = children @ [(name, node)]"

fun Object_Remove :: "string \<Rightarrow> (string \<times> Node) list \<Rightarrow> (string \<times> Node) list" where
  "Object_Remove name [] = []"
| "Object_Remove name (child # rest) =
     (if fst child = name then rest else child # Object_Remove name rest)"

fun Object_Get :: "(string \<times> Node) list \<Rightarrow> string \<Rightarrow> error + Node" where
  "Object_Get [] name = Inl NotFoundException"
| "Object_Get (child # rest) name =
     (if fst child = name then Inr (snd child) else Object_Get rest name)"

definition Object_Has :: "(string \<times> Node) list \<Rightarrow> string \<Rightarrow> bool" where
  "Object_Has children name = list_ex (\<lambda>child. fst child = name) children"

definition Array_Add :: "Node \<Rightarrow> Node list \<Rightarrow> Node list" where
  "Array_Add node children = children @ [node]"

text \<open>\<open>Array::Remove\<close> erases the element at \<open>index\<close> when \<open>index < children.size()\<close> and
  does nothing otherwise; it has no \<open>throw\<close>.\<close>

definition Array_Remove :: "nat \<Rightarrow> Node list \<Rightarrow> Node list" where
  "Array_Remove index children =
     (if index < length children then take index children @ drop (Suc index) children
      else children)"

definition Array_Get :: "Node list \<Rightarrow> nat \<Rightarrow> error + Node" where
  "Array_Get children index =
     (if index < length children then Inr (children ! index) else Inl NotFoundException)"

text \<open>The virtual \<open>GetCount\<close>, \<open>Has\<close> and the two \<open>Get\<close> of \<open>Node\<close>.\<close>

fun GetCount :: "Node \<Rightarrow> nat" where
  "GetCount (Object children) = length children"
| "GetCount (Array children) = length children"
| "GetCount (Value t valueStr) = 0"

fun Has :: "Node \<Rightarrow> string \<Rightarrow> error + bool" where
  "Has (Object children) name = Inr (Object_Has children name)"
| "Has _ name = Inl TypeException"

fun Get_name :: "Node \<Rightarrow> string \<Rightarrow> error + Node" where
  "Get_name (Object children) name = Object_Get children name"
| "Get_name _ name = Inl TypeException"

fun Get_index :: "Node \<Rightarrow> nat \<Rightarrow> error + Node" where
  "Get_index (Array children) index = Array_Get children index"
| "Get_index _ index = Inl TypeException"

section \<open>Writer\<close>

text \<open>\<open>indentSize\<close> is an \<open>unsigned int\<close>; the product \<open>indentSize * level\<close> is the length of
  a string, so it is taken in \<open>nat\<close>.\<close>

record Format =
  newline :: bool
  spacing :: bool
  useTabs :: bool
  indentSize :: nat

definition StandardFormat :: Format where
  "StandardFormat = \<lparr>newline = True, spacing = True, useTabs = True, indentSize = 1\<rparr>"

definition NoFormat :: Format where
  "NoFormat = \<lparr>newline = False, spacing = False, useTabs = False, indentSize = 0\<rparr>"

text \<open>\<open>FormatInterpreter\<close>: the three values \<open>SetFormat\<close> derives, and \<open>GetIndentation\<close>.\<close>

definition indentationChar :: "Format \<Rightarrow> char" where
  "indentationChar format = (if useTabs format then CHR 0x09 else CHR '' '')"

definition GetSpacing :: "Format \<Rightarrow> string" where
  "GetSpacing format = (if spacing format then '' '' else [])"

definition GetNewline :: "Format \<Rightarrow> string" where
  "GetNewline format = (if newline format then [CHR 0x0A] else GetSpacing format)"

definition GetIndentation :: "Format \<Rightarrow> nat \<Rightarrow> string" where
  "GetIndentation format level =
     (if newline format then replicate (indentSize format * level) (indentationChar format)
      else [])"

text \<open>
  The \<open>write*\<close> functions append to \<open>result\<close>; each one here returns what it appends. The
  flag \<open>first\<close> of the two loops is the test \<open>it == node.begin()\<close>.
\<close>

definition writeValue :: "ValueType \<Rightarrow> string \<Rightarrow> string" where
  "writeValue t valueStr =
     (if t = VT_STRING then [CHR 0x22] @ EscapeString (Value_ToString t valueStr) @ [CHR 0x22]
      else Value_ToString t valueStr)"

fun writeNode :: "Format \<Rightarrow> Node \<Rightarrow> nat \<Rightarrow> string"
  and writeObject_loop :: "Format \<Rightarrow> bool \<Rightarrow> (string \<times> Node) list \<Rightarrow> nat \<Rightarrow> string"
  and writeArray_loop :: "Format \<Rightarrow> bool \<Rightarrow> Node list \<Rightarrow> nat \<Rightarrow> string"
where
  "writeNode fi (Object children) level =
     ''{'' @ GetNewline fi @ writeObject_loop fi True children level
       @ GetNewline fi @ GetIndentation fi level @ ''}''"
| "writeNode fi (Array children) level =
     ''['' @ GetNewline fi @ writeArray_loop fi True children level
       @ GetNewline fi @ GetIndentation fi level @ '']''"
| "writeNode fi (Value t valueStr) level = writeValue t valueStr"
| "writeObject_loop fi first [] level = []"
| "writeObject_loop fi first (child # rest) level =
     (if \<not> first then '','' @ GetNewline fi else [])
       @ GetIndentation fi (level + 1) @ [CHR 0x22] @ fst child @ [CHR 0x22] @ '':''
       @ GetSpacing fi
       @ writeNode fi (snd child) (level + 1)
       @ writeObject_loop fi False rest level"
| "writeArray_loop fi first [] level = []"
| "writeArray_loop fi first (child # rest) level =
     (if \<not> first then '','' @ GetNewline fi else [])
       @ GetIndentation fi (level + 1)
       @ writeNode fi child (level + 1)
       @ writeArray_loop fi False rest level"

text \<open>The texts \<open>xs\<close> in order, with \<open>sep\<close> between neighbours; used to state what the
  writer produces.\<close>

fun join :: "string \<Rightarrow> string list \<Rightarrow> string" where
  "join sep [] = []"
| "join sep [x] = x"
| "join sep (x # y # rest) = x @ sep @ join sep (y # rest)"

definition Write :: "Node \<Rightarrow> Format \<Rightarrow> string" where
  "Write root format = writeNode format root 0"

section \<open>Parser\<close>

datatype Token =
    T_UNKNOWN | T_OBJ_BEGIN | T_OBJ_END | T_ARRAY_BEGIN | T_ARRAY_END
  | T_SEPARATOR_NODE | T_SEPARATOR_NAME | T_VALUE

definition IsWhitespace :: "char \<Rightarrow> bool" where
  "IsWhitespace c =
     (c = CHR 0x0A \<or> c = CHR '' '' \<or> c = CHR 0x09 \<or> c = CHR 0x0D \<or> c = CHR 0x0C)"

text \<open>The free function \<open>IsNumber(char)\<close>; \<open>IsNumber\<close> above is the method of \<open>Node\<close>.\<close>

definition IsNumberChar :: "char \<Rightarrow> bool" where
  "IsNumberChar c = (isdigit c \<or> c = CHR ''.'' \<or> c = CHR ''-'')"

definition toupper :: "char \<Rightarrow> char" where
  "toupper c =
     (if (97::nat) \<le> of_char c \<and> of_char c \<le> (122::nat) then char_of (of_char c - (32::nat))
      else c)"

subsection \<open>Tokenizer\<close>

text \<open>
  The tokenizer only moves \<open>cursor\<close> forward over \<open>json\<close>, so the pair of \<open>json\<close> and
  \<open>cursor\<close> is represented by the text from the cursor on: its head is \<open>json.at(cursor)\<close>,
  it is empty when \<open>cursor \<ge> jsonSize\<close>, and it has length 1 exactly when
  \<open>cursor == jsonSize - 1\<close>. The queues \<open>tokens\<close> and \<open>data\<close> are lists with the front at
  the head; \<open>push\<close> appends.
\<close>

text \<open>\<open>peek\<close>, given the text after the cursor.\<close>

fun peek :: "string \<Rightarrow> char" where
  "peek [] = CHR 0x00"
| "peek (p # rest) = p"

text \<open>\<open>jumpToNext c\<close>, given the text after the cursor (the \<open>++cursor\<close> it starts with):
  the text from the new cursor on.\<close>

fun jumpToNext :: "char \<Rightarrow> string \<Rightarrow> string" where
  "jumpToNext c [] = []"
| "jumpToNext c (x # rest) = (if x \<noteq> c then jumpToNext c rest else x # rest)"

text \<open>The loop of \<open>jumpToCommentEnd\<close> with its local \<open>c1\<close>; \<open>break\<close> leaves the cursor on the
  closing slash.\<close>

fun jumpToCommentEnd_loop :: "char \<Rightarrow> string \<Rightarrow> string" where
  "jumpToCommentEnd_loop c1 [] = []"
| "jumpToCommentEnd_loop c1 (c2 # rest) =
     (if c1 = CHR ''*'' \<and> c2 = CHR ''/'' then c2 # rest else jumpToCommentEnd_loop c2 rest)"

definition jumpToCommentEnd :: "string \<Rightarrow> string" where
  "jumpToCommentEnd after = jumpToCommentEnd_loop (CHR 0x00) after"

text \<open>The loop of \<open>readString\<close> with its locals \<open>c1\<close> and \<open>str\<close>: the string read and the text
  from the new cursor on (the closing quote, or nothing when the input ends first).\<close>

fun readString_loop :: "char \<Rightarrow> string \<Rightarrow> string \<Rightarrow> string \<times> string" where
  "readString_loop c1 str [] = (str, [])"
| "readString_loop c1 str (c2 # rest) =
     (if c1 \<noteq> CHR 0x5C \<and> c2 = CHR 0x22 then (str, c2 # rest)
      else readString_loop c2 (str @ [c2]) rest)"

definition readString :: "string \<Rightarrow> string \<times> string" where
  "readString after = readString_loop (CHR 0x00) [] after"

text \<open>
  \<open>interpretValue\<close> pushes the classified literal on \<open>data\<close> and returns whether it knew it.
  \<open>upperValue\<close> is default-constructed and then only \<open>reserve\<close>d: \<open>std::transform\<close> writes
  the upper-cased characters through \<open>upperValue.begin()\<close> into the reserved storage, and
  the size of \<open>upperValue\<close> stays 0, which is what the three comparisons see.
\<close>

definition interpretValue ::
  "string \<Rightarrow> (ValueType \<times> string) list \<Rightarrow> bool \<times> (ValueType \<times> string) list" where
  "interpretValue v data =
     (let storage = map toupper v;
          upperValue = take 0 storage
      in if upperValue = ''NULL'' then (True, data @ [(VT_NULL, [])])
         else if upperValue = ''TRUE'' then (True, data @ [(VT_BOOL, ''true'')])
         else if upperValue = ''FALSE'' then (True, data @ [(VT_BOOL, ''false'')])
         else if \<not> list_all IsNumberChar v then (False, data)
         else (True, data @ [(VT_NUMBER, v)]))"

text \<open>
  The \<open>switch\<close> of \<open>tokenize\<close> on the character \<open>c\<close> under the cursor, \<open>after\<close> being the text
  behind it: the new values of \<open>token\<close>, \<open>saveBuffer\<close>, \<open>valueBuffer\<close> and \<open>data\<close>, and the
  text from the cursor on. The case of the slash assigns nothing to \<open>token\<close>.
\<close>

definition tokenize_switch ::
  "char \<Rightarrow> string \<Rightarrow> Token \<Rightarrow> string \<Rightarrow> (ValueType \<times> string) list
    \<Rightarrow> Token \<times> bool \<times> string \<times> (ValueType \<times> string) list \<times> string" where
  "tokenize_switch c after token valueBuffer data =
     (if c = CHR ''{'' then (T_OBJ_BEGIN, True, valueBuffer, data, c # after)
      else if c = CHR ''}'' then (T_OBJ_END, True, valueBuffer, data, c # after)
      else if c = CHR ''['' then (T_ARRAY_BEGIN, True, valueBuffer, data, c # after)
      else if c = CHR '']'' then (T_ARRAY_END, True, valueBuffer, data, c # after)
      else if c = CHR '','' then (T_SEPARATOR_NODE, True, valueBuffer, data, c # after)
      else if c = CHR '':'' then (T_SEPARATOR_NAME, True, valueBuffer, data, c # after)
      else if c = CHR 0x22 then
        (case readString after of
           (str, at_cursor) \<Rightarrow> (T_VALUE, True, valueBuffer, data @ [(VT_STRING, str)], at_cursor))
      else if c = CHR ''/'' then
        (if peek after = CHR ''*'' then (token, True, valueBuffer, data, jumpToCommentEnd after)
         else if peek after = CHR ''/'' then
           (token, True, valueBuffer, data, jumpToNext (CHR 0x0A) after)
         else (token, True, valueBuffer, data, c # after))
      else (token, False, valueBuffer @ [c], data, c # after))"

text \<open>The block that saves a non-empty \<open>valueBuffer\<close>: the new \<open>tokens\<close> and \<open>data\<close>.\<close>

definition save_buffer ::
  "string \<Rightarrow> Token list \<Rightarrow> (ValueType \<times> string) list
    \<Rightarrow> Token list \<times> (ValueType \<times> string) list" where
  "save_buffer valueBuffer tokens data =
     (case interpretValue valueBuffer data of
        (known, data1) \<Rightarrow>
          if known then (tokens @ [T_VALUE], data1)
          else (tokens @ [T_UNKNOWN], data1 @ [(VT_STRING, valueBuffer)]))"

lemma length_jumpToNext: "length (jumpToNext c s) \<le> length s"
  by (induction s) auto

lemma length_jumpToCommentEnd_loop: "length (jumpToCommentEnd_loop c1 s) \<le> length s"
  by (induction s arbitrary: c1) (auto simp: le_SucI)

lemma length_readString_loop: "length (snd (readString_loop c1 str s)) \<le> length s"
  by (induction s arbitrary: c1 str) (auto simp: le_SucI)

lemma length_tokenize_switch:
  "tokenize_switch c after token valueBuffer data = (token1, saveBuffer, valueBuffer1, data1, at_cursor)
    \<Longrightarrow> length at_cursor \<le> Suc (length after)"
  using length_jumpToNext [of "CHR 0x0A" after]
    length_jumpToCommentEnd_loop [of "CHR 0x00" after]
    length_readString_loop [of "CHR 0x00" "[]" after]
  by (auto simp: tokenize_switch_def jumpToCommentEnd_def readString_def
      split: if_splits prod.splits)

text \<open>
  The loop of \<open>tokenize\<close>, with the locals \<open>token\<close> and \<open>valueBuffer\<close> and the queues
  \<open>tokens\<close> and \<open>data\<close>, on the text from the cursor on. The \<open>++cursor\<close> of the \<open>for\<close> is the
  \<open>tl\<close>; past the end of \<open>json\<close> the text stays empty.
\<close>

function tokenize_loop ::
  "Token \<Rightarrow> string \<Rightarrow> Token list \<Rightarrow> (ValueType \<times> string) list \<Rightarrow> string
    \<Rightarrow> Token list \<times> (ValueType \<times> string) list" where
  "tokenize_loop token valueBuffer tokens data [] = (tokens, data)"
| "tokenize_loop token valueBuffer tokens data (c # after) =
     (if IsWhitespace c then tokenize_loop token valueBuffer tokens data after
      else
        case tokenize_switch c after token valueBuffer data of
          (token1, saveBuffer, valueBuffer1, data1, at_cursor) \<Rightarrow>
            if (saveBuffer \<or> length at_cursor = 1) \<and> valueBuffer1 \<noteq> [] then
              (case save_buffer valueBuffer1 tokens data1 of
                 (tokens2, data2) \<Rightarrow>
                   tokenize_loop token1 []
                     (if saveBuffer then tokens2 @ [token1] else tokens2) data2 (tl at_cursor))
            else
              tokenize_loop token1 valueBuffer1
                (if saveBuffer then tokens @ [token1] else tokens) data1 (tl at_cursor))"
  by pat_completeness auto
termination
proof (relation "measure (\<lambda>(token, valueBuffer, tokens, data, s). length s)")
  show "wf (measure (\<lambda>(token, valueBuffer, tokens, data, s). length s))"
    by simp
qed (auto dest: length_tokenize_switch [OF sym])

definition tokenize :: "string \<Rightarrow> Token list \<times> (ValueType \<times> string) list" where
  "tokenize json = tokenize_loop T_UNKNOWN [] [] [] json"

subsection \<open>Assembler\<close>

text \<open>
  The stack \<open>nodeStack\<close> holds pairs of a name and a \<open>Node *\<close>. The pointer is either
  \<open>&root\<close>, so that a change through it changes the caller's root, or a node this run
  allocated with \<open>new\<close>, which the frame alone refers to.
\<close>

datatype NodePtr = RootRef | Fresh Node

fun deref :: "Node \<Rightarrow> NodePtr \<Rightarrow> Node" where
  "deref root RootRef = root"
| "deref root (Fresh node) = node"

text \<open>
  The outcome of \<open>assemble\<close>: \<open>true\<close>, with the root and the stack as they are at the
  \<open>return\<close>; \<open>false\<close>, with the text of \<open>error\<close> and the root as it is then; or no defined
  outcome, where the source calls \<open>data.front()\<close> on an empty queue.
\<close>

datatype assemble_result =
    Success Node "(string \<times> NodePtr) list"
  | Failure string Node
  | Undefined

text \<open>
  \<open>nodeStack.top().second->AsObject().Add(name, *node)\<close>, or \<open>AsArray().Add(*node)\<close>: the
  stack and the root after the call, or \<open>None\<close> when the node on top is neither an object
  nor an array. The stack is not empty where the source does this.
\<close>

fun store :: "NodePtr \<Rightarrow> Node \<Rightarrow> (string \<times> NodePtr) list \<Rightarrow> Node
    \<Rightarrow> (string \<times> NodePtr) list \<times> Node" where
  "store RootRef n nodeStack root = (nodeStack, n)"
| "store (Fresh old) n [] root = ([], root)"
| "store (Fresh old) n (frame # below) root = ((fst frame, Fresh n) # below, root)"

definition top_Add :: "string \<Rightarrow> Node \<Rightarrow> (string \<times> NodePtr) list \<Rightarrow> Node
    \<Rightarrow> ((string \<times> NodePtr) list \<times> Node) option" where
  "top_Add name node nodeStack root =
     (case nodeStack of
        [] \<Rightarrow> None
      | frame # below \<Rightarrow>
          (case deref root (snd frame) of
             Object children \<Rightarrow>
               Some (store (snd frame) (Object (Object_Add name node children)) nodeStack root)
           | Array children \<Rightarrow>
               Some (store (snd frame) (Array (Array_Add node children)) nodeStack root)
           | Value t valueStr \<Rightarrow> None))"

text \<open>The shared case of \<open>T_OBJ_END\<close> and \<open>T_ARRAY_END\<close>: the error text, or the stack and
  the root after it.\<close>

definition assemble_end :: "Token \<Rightarrow> (string \<times> NodePtr) list \<Rightarrow> Node
    \<Rightarrow> string + ((string \<times> NodePtr) list \<times> Node)" where
  "assemble_end token nodeStack root =
     (case nodeStack of
        [] \<Rightarrow> Inl ''Found end of object or array without beginning''
      | frame # below \<Rightarrow>
          if token = T_OBJ_END \<and> \<not> IsObject (deref root (snd frame)) then
            Inl ''Mismatched end and beginning of object''
          else if token = T_ARRAY_END \<and> \<not> IsArray (deref root (snd frame)) then
            Inl ''Mismatched end and beginning of array''
          else if below \<noteq> [] then
            (case top_Add (fst frame) (deref root (snd frame)) below root of
               Some r \<Rightarrow> Inr r
             | None \<Rightarrow> Inl ''Can only add elements to objects and arrays'')
          else Inr (below, root))"

text \<open>The two \<open>Set\<close> calls of the case \<open>T_VALUE\<close>: the value built from the front of
  \<open>data\<close>. \<open>Set(const std::string &)\<close> unescapes.\<close>

definition Value_from_data :: "ValueType \<times> string \<Rightarrow> Node" where
  "Value_from_data d =
     (if fst d = VT_STRING then Value VT_STRING (UnescapeString (snd d))
      else Value (fst d) (snd d))"

fun assemble_loop ::
  "Token list \<Rightarrow> (ValueType \<times> string) list \<Rightarrow> (string \<times> NodePtr) list \<Rightarrow> string \<Rightarrow> Node
    \<Rightarrow> assemble_result" where
  "assemble_loop [] data nodeStack name root = Success root nodeStack"
| "assemble_loop (T_UNKNOWN # tokens) data nodeStack name root =
     (case data of
        [] \<Rightarrow> Undefined
      | d # data1 \<Rightarrow> Failure (''Unknown token: '' @ snd d) root)"
| "assemble_loop (T_OBJ_BEGIN # tokens) data nodeStack name root =
     (if nodeStack = [] then
        (if \<not> IsObject root then Failure ''The given root node is not an object'' root
         else assemble_loop tokens data ((name, RootRef) # nodeStack) [] root)
      else assemble_loop tokens data ((name, Fresh (Object [])) # nodeStack) [] root)"
| "assemble_loop (T_ARRAY_BEGIN # tokens) data nodeStack name root =
     (if nodeStack = [] then
        (if \<not> IsArray root then Failure ''The given root node is not an array'' root
         else assemble_loop tokens data ((name, RootRef) # nodeStack) [] root)
      else assemble_loop tokens data ((name, Fresh (Array [])) # nodeStack) [] root)"
| "assemble_loop (T_OBJ_END # tokens) data nodeStack name root =
     (case assemble_end T_OBJ_END nodeStack root of
        Inl e \<Rightarrow> Failure e root
      | Inr (nodeStack1, root1) \<Rightarrow> assemble_loop tokens data nodeStack1 name root1)"
| "assemble_loop (T_ARRAY_END # tokens) data nodeStack name root =
     (case assemble_end T_ARRAY_END nodeStack root of
        Inl e \<Rightarrow> Failure e root
      | Inr (nodeStack1, root1) \<Rightarrow> assemble_loop tokens data nodeStack1 name root1)"
| "assemble_loop (T_VALUE # tokens) data nodeStack name root =
     (if tokens \<noteq> [] \<and> hd tokens = T_SEPARATOR_NAME then
        (case data of
           [] \<Rightarrow> Undefined
         | d # data1 \<Rightarrow>
             if fst d \<noteq> VT_STRING then Failure ''A name has to be a string'' root
             else assemble_loop (tl tokens) data1 nodeStack (snd d) root)
      else if nodeStack = [] then
        (if \<not> IsValue root then Failure ''The given root node is not a value'' root
         else
           (case data of
              [] \<Rightarrow> Undefined
            | d # data1 \<Rightarrow>
                assemble_loop tokens data1 [(name, RootRef)] [] (Value_from_data d)))
      else
        (case data of
           [] \<Rightarrow> Undefined
         | d # data1 \<Rightarrow>
             (case top_Add name (Value_from_data d) nodeStack root of
                Some (nodeStack1, root1) \<Rightarrow> assemble_loop tokens data1 nodeStack1 [] root1
              | None \<Rightarrow> assemble_loop tokens data1 nodeStack [] root)))"
| "assemble_loop (T_SEPARATOR_NAME # tokens) data nodeStack name root =
     assemble_loop tokens data nodeStack name root"
| "assemble_loop (T_SEPARATOR_NODE # tokens) data nodeStack name root =
     assemble_loop tokens data nodeStack name root"

definition assemble :: "Token list \<Rightarrow> (ValueType \<times> string) list \<Rightarrow> Node \<Rightarrow> assemble_result" where
  "assemble tokens data root = assemble_loop tokens data [] [] root"

text \<open>\<open>Parser(root, json).Parse()\<close>: a parser made for this root and text, its queues
  empty, run once.\<close>

definition Parse :: "Node \<Rightarrow> string \<Rightarrow> assemble_result" where
  "Parse root json = (case tokenize json of (tokens, data) \<Rightarrow> assemble tokens data root)"

section \<open>Round trip: the trees and their tokens\<close>

text \<open>
  The trees of the round trip. A text is free of escapes when none of its characters is in
  the table \<open>chars\<close>. A name is readable when \<open>readString\<close>, reading it behind the opening
  quote, stops at the quote that closes it and not before or after: every double quote
  in the name follows a backslash directly, and the name does not end in a backslash;
  \<open>c1\<close> is the character before the text. A tree is plain when every leaf is a Number
  whose text is not empty and has only digits, dots and minus signs, or a String whose
  text is free of escapes, and every name of every object is readable.
\<close>

definition escape_free :: "string \<Rightarrow> bool" where
  "escape_free s = list_all (\<lambda>c. c \<notin> set (map fst chars)) s"

fun readable_after :: "char \<Rightarrow> string \<Rightarrow> bool" where
  "readable_after c1 [] = (c1 \<noteq> CHR 0x5C)"
| "readable_after c1 (c2 # rest) =
     (\<not> (c1 \<noteq> CHR 0x5C \<and> c2 = CHR 0x22) \<and> readable_after c2 rest)"

definition readable_name :: "string \<Rightarrow> bool" where
  "readable_name s = readable_after (CHR 0x00) s"

fun plain :: "Node \<Rightarrow> bool" where
  "plain (Object children) = list_all (\<lambda>child. readable_name (fst child) \<and> plain (snd child)) children"
| "plain (Array children) = list_all plain children"
| "plain (Value t valueStr) =
     (if t = VT_NUMBER then valueStr \<noteq> [] \<and> list_all IsNumberChar valueStr
      else t = VT_STRING \<and> escape_free valueStr)"

text \<open>A root of the kind of the tree, as the default constructors make it.\<close>

fun fresh_root :: "Node \<Rightarrow> Node" where
  "fresh_root (Object children) = Object []"
| "fresh_root (Array children) = Array []"
| "fresh_root (Value t valueStr) = Value_default"

text \<open>
  The tokens and the payloads that the compact text of a tree stands for: what the
  tokenizer is shown to produce and the assembler to consume. The flag \<open>first\<close> is that
  of the writer's loops; an entry that is not the first follows a node separator.
\<close>

fun toks :: "Node \<Rightarrow> Token list"
  and etoks :: "bool \<Rightarrow> (string \<times> Node) list \<Rightarrow> Token list"
  and atoks :: "bool \<Rightarrow> Node list \<Rightarrow> Token list"
where
  "toks (Object children) = T_OBJ_BEGIN # etoks True children @ [T_OBJ_END]"
| "toks (Array children) = T_ARRAY_BEGIN # atoks True children @ [T_ARRAY_END]"
| "toks (Value t valueStr) = [T_VALUE]"
| "etoks first [] = []"
| "etoks first (child # rest) =
     (if first then [] else [T_SEPARATOR_NODE])
       @ T_VALUE # T_SEPARATOR_NAME # toks (snd child) @ etoks False rest"
| "atoks first [] = []"
| "atoks first (child # rest) =
     (if first then [] else [T_SEPARATOR_NODE]) @ toks child @ atoks False rest"

fun dats :: "Node \<Rightarrow> (ValueType \<times> string) list"
  and edats :: "(string \<times> Node) list \<Rightarrow> (ValueType \<times> string) list"
  and adats :: "Node list \<Rightarrow> (ValueType \<times> string) list"
where
  "dats (Object children) = edats children"
| "dats (Array children) = adats children"
| "dats (Value t valueStr) = [(t, valueStr)]"
| "edats [] = []"
| "edats (child # rest) = (VT_STRING, fst child) # dats (snd child) @ edats rest"
| "adats [] = []"
| "adats (child # rest) = dats child @ adats rest"

text \<open>The three characters that can follow an element in a compact text, and their
  tokens.\<close>

definition is_delim :: "char \<Rightarrow> bool" where
  "is_delim d = (d = CHR '','' \<or> d = CHR '']'' \<or> d = CHR ''}'')"

definition delim_token :: "char \<Rightarrow> Token" where
  "delim_token d =
     (if d = CHR '','' then T_SEPARATOR_NODE else if d = CHR '']'' then T_ARRAY_END else T_OBJ_END)"

text \<open>The tokenizer on the compact text of a node that a delimiter follows, starting
  with an empty \<open>valueBuffer\<close>: it pushes the tokens and payloads of the node, then the
  token of the delimiter.\<close>

definition tokenizes_as_element :: "Node \<Rightarrow> bool" where
  "tokenizes_as_element v =
     (\<forall>token tokens data level d rest. is_delim d \<longrightarrow>
        tokenize_loop token [] tokens data (writeNode NoFormat v level @ d # rest)
          = tokenize_loop (delim_token d) [] (tokens @ toks v @ [delim_token d])
              (data @ dats v) rest)"

text \<open>
  The node the top frame points to, and the stack and root after that node is replaced
  by \<open>n\<close>; \<open>append_child\<close> is \<open>Add\<close> on an object or an array.
\<close>

definition top_node :: "Node \<Rightarrow> (string \<times> NodePtr) list \<Rightarrow> Node" where
  "top_node root nodeStack = deref root (snd (hd nodeStack))"

definition with_top :: "Node \<Rightarrow> (string \<times> NodePtr) list \<Rightarrow> Node
    \<Rightarrow> (string \<times> NodePtr) list \<times> Node" where
  "with_top n nodeStack root = store (snd (hd nodeStack)) n nodeStack root"

fun append_child :: "string \<Rightarrow> Node \<Rightarrow> Node \<Rightarrow> Node" where
  "append_child name v (Object children) = Object (children @ [(name, v)])"
| "append_child name v (Array children) = Array (children @ [v])"
| "append_child name v (Value t valueStr) = Value t valueStr"

definition is_container :: "Node \<Rightarrow> bool" where
  "is_container n = (IsObject n \<or> IsArray n)"

definition starts_with_name :: "Token list \<Rightarrow> bool" where
  "starts_with_name tokens = (tokens \<noteq> [] \<and> hd tokens = T_SEPARATOR_NAME)"

definition assemble_at ::
  "Token list \<Rightarrow> (ValueType \<times> string) list \<Rightarrow> string \<Rightarrow> (string \<times> NodePtr) list \<times> Node
    \<Rightarrow> assemble_result" where
  "assemble_at tokens data name sr = assemble_loop tokens data (fst sr) name (snd sr)"

text \<open>The assembler on the tokens of a node, the node on top of the stack being an
  object or an array: the node is added to it under the pending name, and the name is
  cleared.\<close>

definition assembles_as_element :: "Node \<Rightarrow> bool" where
  "assembles_as_element v =
     (\<forall>rtoks rdata nodeStack name root.
        nodeStack \<noteq> [] \<longrightarrow> is_container (top_node root nodeStack) \<longrightarrow> \<not> starts_with_name rtoks \<longrightarrow>
          assemble_loop (toks v @ rtoks) (dats v @ rdata) nodeStack name root
            = assemble_at rtoks rdata []
                (with_top (append_child name v (top_node root nodeStack)) nodeStack root))"

section \<open>Properties\<close>

subsection \<open>Auxiliary facts\<close>

lemma getUnescaped_eq:
  "getUnescaped c1 c2 = (if c1 = CHR 0x5C \<and> c2 = CHR ''/'' then CHR 0x5C else CHR 0x00)"
  by (simp add: getUnescaped_def chars_def nullUnescaped_def)

lemma interpretValue_eq:
  "interpretValue v data =
     (if list_all IsNumberChar v then (True, data @ [(VT_NUMBER, v)]) else (False, data))"
  by (simp add: interpretValue_def)

lemma join_Cons: "join sep (x # xs) = x @ concat (map (\<lambda>y. sep @ y) xs)"
  by (induction xs arbitrary: x) auto

lemma writeObject_loop_rest:
  "writeObject_loop fi False children level =
     concat (map (\<lambda>child. ('','' @ GetNewline fi) @
       (GetIndentation fi (level + 1) @ [CHR 0x22] @ fst child @ [CHR 0x22] @ '':''
          @ GetSpacing fi @ writeNode fi (snd child) (level + 1))) children)"
  by (induction children) auto

lemma writeObject_loop_join:
  "writeObject_loop fi True children level =
     join ('','' @ GetNewline fi)
       (map (\<lambda>child. GetIndentation fi (level + 1) @ [CHR 0x22] @ fst child @ [CHR 0x22] @ '':''
          @ GetSpacing fi @ writeNode fi (snd child) (level + 1)) children)"
proof (cases children)
  case Nil
  then show ?thesis by simp
next
  case (Cons child rest)
  then show ?thesis
    by (simp add: join_Cons writeObject_loop_rest comp_def)
qed

lemma Object_Get_first:
  "name \<notin> fst ` set before \<Longrightarrow> Object_Get (before @ (name, node) # rest) name = Inr node"
  by (induction before) auto

lemma Object_Get_none:
  "(Object_Get children name = Inl NotFoundException) = (name \<notin> fst ` set children)"
  by (induction children) auto

lemma Object_Remove_first:
  "name \<notin> fst ` set before \<Longrightarrow>
     Object_Remove name (before @ (name, node) # rest) = before @ rest"
  by (induction before) auto

lemma Object_Remove_none:
  "name \<notin> fst ` set children \<Longrightarrow> Object_Remove name children = children"
  by (induction children) auto

lemma Object_Add_all:
  "foldl (\<lambda>cs child. Object_Add (fst child) (snd child) cs) children entries = children @ entries"
  by (induction entries arbitrary: children) (auto simp: Object_Add_def)

subsection \<open>Escaping\<close>

text \<open>
  C2 (not met by the code). The claim asks that \<open>UnescapeString\<close> undoes \<open>EscapeString\<close> on
  every string and that it replaces every pair of the escape table by its character.
  \<open>getUnescaped\<close> answers for one pair only, a backslash followed by a slash, and its answer
  there is the backslash: so the slash comes back as a backslash, and a line feed comes
  back as the two characters backslash and \<open>n\<close>.
\<close>

theorem UnescapeString_not_inverse:
  "(\<forall>c1 c2. getUnescaped c1 c2
       = (if c1 = CHR 0x5C \<and> c2 = CHR ''/'' then CHR 0x5C else CHR 0x00))
   \<and> EscapeString ''/'' = [CHR 0x5C, CHR ''/'']
   \<and> UnescapeString (EscapeString ''/'') = [CHR 0x5C]
   \<and> UnescapeString (EscapeString ''/'') \<noteq> ''/''
   \<and> EscapeString [CHR 0x0A] = [CHR 0x5C, CHR ''n'']
   \<and> UnescapeString (EscapeString [CHR 0x0A]) = [CHR 0x5C, CHR ''n'']"
  by (simp add: getUnescaped_eq getEscaped_def chars_def)

subsection \<open>Literal classification\<close>

text \<open>
  C3 (not met by the code). The claim asks that the texts \<open>null\<close>, \<open>true\<close> and \<open>false\<close> are
  classified as Null and Bool payloads, whatever their case. In \<open>interpretValue\<close> the
  upper-cased copy has size 0 when it is compared, so no text is ever \<open>NULL\<close>, \<open>TRUE\<close> or
  \<open>FALSE\<close>: a text of digits, dots and minus signs is a Number, every other text is
  unknown. Parsing \<open>123\<close> into a Value root gives the number 123 and \<open>abc\<close> fails as the
  claim says, but \<open>true\<close>, \<open>false\<close> and \<open>null\<close> fail as unknown tokens too.
\<close>

theorem interpretValue_knows_numbers_only:
  "(\<forall>v data. interpretValue v data
       = (if list_all IsNumberChar v then (True, data @ [(VT_NUMBER, v)]) else (False, data)))
   \<and> Parse Value_default ''true'' = Failure ''Unknown token: true'' Value_default
   \<and> Parse Value_default ''false'' = Failure ''Unknown token: false'' Value_default
   \<and> Parse Value_default ''null'' = Failure ''Unknown token: null'' Value_default
   \<and> Parse Value_default ''abc'' = Failure ''Unknown token: abc'' Value_default
   \<and> Parse Value_default ''123'' = Success (Value VT_NUMBER ''123'') [([], RootRef)]
   \<and> IsNumber (Value VT_NUMBER ''123'') \<and> ToInt (Value VT_NUMBER ''123'') = Inr 123"
proof -
  have "Parse Value_default ''true'' = Failure ''Unknown token: true'' Value_default"
    by code_simp
  moreover have "Parse Value_default ''false'' = Failure ''Unknown token: false'' Value_default"
    by code_simp
  moreover have "Parse Value_default ''null'' = Failure ''Unknown token: null'' Value_default"
    by code_simp
  moreover have "Parse Value_default ''abc'' = Failure ''Unknown token: abc'' Value_default"
    by code_simp
  moreover have "Parse Value_default ''123'' = Success (Value VT_NUMBER ''123'') [([], RootRef)]"
    by code_simp
  moreover have "ToInt (Value VT_NUMBER ''123'') = Inr 123"
    by code_simp
  ultimately show ?thesis
    by (simp add: interpretValue_eq)
qed

subsection \<open>Comments\<close>

text \<open>
  C4 (not met by the code). The claim asks that a comment is skipped without a token and
  that the text with the block comment parses to the tree of the text without it. The
  case of the slash in \<open>tokenize\<close> leaves \<open>saveBuffer\<close> true and \<open>token\<close> as the last
  iteration set it, so the token before the comment is pushed a second time: here a
  second name separator follows the value 1, the assembler takes 1 for a name and the
  parse fails. The text without the comment parses to the object with \<open>a\<close> and \<open>b\<close>.
\<close>

theorem comment_pushes_previous_token:
  \<open>tokenize ''{"a": 1 /* note */, "b": 2}''
     = ([T_OBJ_BEGIN, T_VALUE, T_SEPARATOR_NAME, T_VALUE, T_SEPARATOR_NAME, T_SEPARATOR_NODE,
         T_VALUE, T_SEPARATOR_NAME, T_VALUE, T_OBJ_END],
        [(VT_STRING, ''a''), (VT_NUMBER, ''1''), (VT_STRING, ''b''), (VT_NUMBER, ''2'')])
   \<and> tokenize ''{"a": 1, "b": 2}''
     = ([T_OBJ_BEGIN, T_VALUE, T_SEPARATOR_NAME, T_VALUE, T_SEPARATOR_NODE,
         T_VALUE, T_SEPARATOR_NAME, T_VALUE, T_OBJ_END],
        [(VT_STRING, ''a''), (VT_NUMBER, ''1''), (VT_STRING, ''b''), (VT_NUMBER, ''2'')])
   \<and> Parse (Object []) ''{"a": 1 /* note */, "b": 2}''
     = Failure ''A name has to be a string'' (Object [])
   \<and> Parse (Object []) ''{"a": 1, "b": 2}''
     = Success (Object [(''a'', Value VT_NUMBER ''1''), (''b'', Value VT_NUMBER ''2'')]) []\<close>
proof -
  have \<open>tokenize ''{"a": 1 /* note */, "b": 2}''
     = ([T_OBJ_BEGIN, T_VALUE, T_SEPARATOR_NAME, T_VALUE, T_SEPARATOR_NAME, T_SEPARATOR_NODE,
         T_VALUE, T_SEPARATOR_NAME, T_VALUE, T_OBJ_END],
        [(VT_STRING, ''a''), (VT_NUMBER, ''1''), (VT_STRING, ''b''), (VT_NUMBER, ''2'')])\<close>
    by code_simp
  moreover have \<open>tokenize ''{"a": 1, "b": 2}''
     = ([T_OBJ_BEGIN, T_VALUE, T_SEPARATOR_NAME, T_VALUE, T_SEPARATOR_NODE,
         T_VALUE, T_SEPARATOR_NAME, T_VALUE, T_OBJ_END],
        [(VT_STRING, ''a''), (VT_NUMBER, ''1''), (VT_STRING, ''b''), (VT_NUMBER, ''2'')])\<close>
    by code_simp
  moreover have \<open>Parse (Object []) ''{"a": 1 /* note */, "b": 2}''
     = Failure ''A name has to be a string'' (Object [])\<close>
    by code_simp
  moreover have \<open>Parse (Object []) ''{"a": 1, "b": 2}''
     = Success (Object [(''a'', Value VT_NUMBER ''1''), (''b'', Value VT_NUMBER ''2'')]) []\<close>
    by code_simp
  ultimately show ?thesis
    by simp
qed

subsection \<open>Value accessors\<close>

text \<open>
  C5 as stated fails: \<open>ToInt\<close> on a String-kind value and \<open>ToBool\<close> on a Number-kind value
  return 0 and \<open>false\<close>; they do not throw.
\<close>

theorem accessor_on_other_kind_returns_default:
  "ToInt (Value VT_STRING ''abc'') = Inr 0
   \<and> ToInt (Value VT_STRING ''abc'') \<noteq> Inl TypeException
   \<and> ToBool (Value VT_NUMBER ''1'') = Inr False
   \<and> ToBool (Value VT_NUMBER ''1'') \<noteq> Inl TypeException"
  by simp

text \<open>
  C5 (amended). The value accessors \<open>ToString\<close>, \<open>ToInt\<close>, \<open>ToFloat\<close>, \<open>ToDouble\<close> and
  \<open>ToBool\<close> throw \<open>TypeException\<close> exactly when the node is not a Value (an Object or an
  Array). On a Value of another kind they do not throw: \<open>ToInt\<close>, \<open>ToFloat\<close> and \<open>ToDouble\<close>
  return zero unless the kind is Number, \<open>ToBool\<close> returns \<open>false\<close> unless the kind is Bool,
  and \<open>ToString\<close> returns the stored text for every kind but Null, where it returns
  \<open>null\<close>.
\<close>

theorem accessors_throw_iff_not_value:
  "(ToString n = Inl TypeException \<longleftrightarrow> \<not> IsValue n)
   \<and> (ToInt n = Inl TypeException \<longleftrightarrow> \<not> IsValue n)
   \<and> (ToFloat extract zero n = Inl TypeException \<longleftrightarrow> \<not> IsValue n)
   \<and> (ToDouble extract zero n = Inl TypeException \<longleftrightarrow> \<not> IsValue n)
   \<and> (ToBool n = Inl TypeException \<longleftrightarrow> \<not> IsValue n)
   \<and> (IsValue n \<and> \<not> IsNumber n \<longrightarrow>
        ToInt n = Inr 0 \<and> ToFloat extract zero n = Inr zero \<and> ToDouble extract zero n = Inr zero)
   \<and> (IsValue n \<and> \<not> IsBool n \<longrightarrow> ToBool n = Inr False)
   \<and> ToString (Value t valueStr) = Inr (if t = VT_NULL then ''null'' else valueStr)"
  by (cases n) (simp_all add: IsValue_def Value_ToString_def)

theorem accessors_throw_iff_not_value_witness:
  "IsValue (Value VT_STRING ''abc'') \<and> \<not> IsNumber (Value VT_STRING ''abc'')
   \<and> \<not> IsBool (Value VT_STRING ''abc'')
   \<and> ToInt (Value VT_STRING ''abc'') = Inr 0
   \<and> ToFloat (\<lambda>s. int (length s)) 0 (Value VT_STRING ''abc'') = Inr 0
   \<and> ToBool (Value VT_STRING ''abc'') = Inr False
   \<and> ToString (Value VT_STRING ''abc'') = Inr ''abc''
   \<and> \<not> IsValue (Array []) \<and> ToInt (Array []) = Inl TypeException
   \<and> ToString (Array []) = Inl TypeException"
  using accessors_throw_iff_not_value [of "Value VT_STRING ''abc''" "\<lambda>s. int (length s)" 0 VT_STRING "''abc''"]
    accessors_throw_iff_not_value [of "Array []" "\<lambda>s. int (length s)" 0 VT_STRING "''abc''"]
  by (simp add: IsValue_def)

subsection \<open>End of the token stream\<close>

text \<open>
  C6. \<open>assemble\<close> returns \<open>true\<close> as soon as the token queue is empty, whatever is on the
  stack: the stack is not looked at. So the text \<open>[[1\<close>, two arrays opened and none
  closed, parses with success into an Array root; the root is still empty, and the inner
  array holding 1 is on the stack, attached to nothing. The closed text \<open>[[1]]\<close> gives the
  root the inner array.
\<close>

theorem success_at_end_of_tokens_whatever_the_stack:
  "(\<forall>data nodeStack name root.
      assemble_loop [] data nodeStack name root = Success root nodeStack)
   \<and> Parse (Array []) ''[[1''
       = Success (Array []) [([], Fresh (Array [Value VT_NUMBER ''1''])), ([], RootRef)]
   \<and> Parse (Array []) ''[[1]]'' = Success (Array [Array [Value VT_NUMBER ''1'']]) []"
proof -
  have "Parse (Array []) ''[[1''
       = Success (Array []) [([], Fresh (Array [Value VT_NUMBER ''1''])), ([], RootRef)]"
    by code_simp
  moreover have "Parse (Array []) ''[[1]]'' = Success (Array [Array [Value VT_NUMBER ''1'']]) []"
    by code_simp
  ultimately show ?thesis
    by simp
qed

subsection \<open>Kind of the root\<close>

text \<open>
  C7. With an empty stack, \<open>T_OBJ_BEGIN\<close> fails unless the root is an Object and
  \<open>T_ARRAY_BEGIN\<close> fails unless the root is an Array; with such a root the assembler goes
  on with the root on the stack. So \<open>[1,2]\<close> parsed into any root that is not an Array (an
  Object root among them) fails with the error of the array case, and \<open>{"a":1}\<close> parsed
  into any root that is not an Object (an Array root among them) fails with the error of
  the object case.
\<close>

theorem root_kind_enforced:
  \<open>(\<not> IsObject root \<longrightarrow>
      assemble_loop (T_OBJ_BEGIN # tokens) data [] name root
        = Failure ''The given root node is not an object'' root)
   \<and> (\<not> IsArray root \<longrightarrow>
      assemble_loop (T_ARRAY_BEGIN # tokens) data [] name root
        = Failure ''The given root node is not an array'' root)
   \<and> (IsObject root \<longrightarrow>
      assemble_loop (T_OBJ_BEGIN # tokens) data [] name root
        = assemble_loop tokens data [(name, RootRef)] [] root)
   \<and> (IsArray root \<longrightarrow>
      assemble_loop (T_ARRAY_BEGIN # tokens) data [] name root
        = assemble_loop tokens data [(name, RootRef)] [] root)
   \<and> (\<not> IsArray root \<longrightarrow>
      Parse root ''[1,2]'' = Failure ''The given root node is not an array'' root)
   \<and> (\<not> IsObject root \<longrightarrow>
      Parse root ''{"a":1}'' = Failure ''The given root node is not an object'' root)\<close>
proof -
  have \<open>tokenize ''[1,2]''
      = ([T_ARRAY_BEGIN, T_VALUE, T_SEPARATOR_NODE, T_VALUE, T_ARRAY_END],
         [(VT_NUMBER, ''1''), (VT_NUMBER, ''2'')])\<close>
    by code_simp
  moreover have \<open>tokenize ''{"a":1}''
      = ([T_OBJ_BEGIN, T_VALUE, T_SEPARATOR_NAME, T_VALUE, T_OBJ_END],
         [(VT_STRING, ''a''), (VT_NUMBER, ''1'')])\<close>
    by code_simp
  ultimately show ?thesis
    by (simp add: Parse_def assemble_def)
qed

theorem root_kind_enforced_witness:
  \<open>\<not> IsArray (Object []) \<and> \<not> IsObject (Array []) \<and> IsObject (Object []) \<and> IsArray (Array [])
   \<and> Parse (Object []) ''[1,2]'' = Failure ''The given root node is not an array'' (Object [])
   \<and> Parse (Array []) ''{"a":1}'' = Failure ''The given root node is not an object'' (Array [])
   \<and> assemble_loop [T_OBJ_BEGIN] [] [] [] (Object []) = Success (Object []) [([], RootRef)]
   \<and> assemble_loop [T_ARRAY_BEGIN] [] [] [] (Array []) = Success (Array []) [([], RootRef)]
   \<and> assemble_loop [T_OBJ_BEGIN] [] [] [] (Array [])
       = Failure ''The given root node is not an object'' (Array [])
   \<and> assemble_loop [T_ARRAY_BEGIN] [] [] [] (Object [])
       = Failure ''The given root node is not an array'' (Object [])\<close>
  using root_kind_enforced [of "Object []" "[]" "[]" "[]"]
    root_kind_enforced [of "Array []" "[]" "[]" "[]"]
  by (simp add: IsObject_def IsArray_def)

subsection \<open>Objects\<close>

text \<open>
  C8. \<open>Add\<close> appends, so the children of an object are the added entries in the order of
  the calls, equal names included; the writer renders them in that order. \<open>Get\<close> returns
  the node of the first entry with the name and throws \<open>NotFoundException\<close> exactly when
  no entry has it. \<open>Remove\<close> deletes the first entry with the name and keeps every other
  entry, in order; without such an entry it changes nothing.
\<close>

theorem object_order_and_first_match:
  "foldl (\<lambda>cs child. Object_Add (fst child) (snd child) cs) children entries = children @ entries
   \<and> writeNode fi (Object children) level
       = ''{'' @ GetNewline fi
         @ join ('','' @ GetNewline fi)
             (map (\<lambda>child. GetIndentation fi (level + 1) @ [CHR 0x22] @ fst child @ [CHR 0x22]
                @ '':'' @ GetSpacing fi @ writeNode fi (snd child) (level + 1)) children)
         @ GetNewline fi @ GetIndentation fi level @ ''}''
   \<and> (name \<notin> fst ` set before \<longrightarrow>
        Object_Get (before @ (name, node) # rest) name = Inr node
        \<and> Object_Remove name (before @ (name, node) # rest) = before @ rest)
   \<and> ((Object_Get children name = Inl NotFoundException) = (name \<notin> fst ` set children))
   \<and> (name \<notin> fst ` set children \<longrightarrow> Object_Remove name children = children)"
  using Object_Add_all [of children entries] writeObject_loop_join [of fi children level]
    Object_Get_first [of name before node rest] Object_Remove_first [of name before node rest]
    Object_Get_none [of children name] Object_Remove_none [of name children]
  by simp

theorem object_order_and_first_match_witness:
  "foldl (\<lambda>cs child. Object_Add (fst child) (snd child) cs) []
       [(''a'', Value VT_NUMBER ''1''), (''b'', Value VT_NUMBER ''2''), (''a'', Value VT_NUMBER ''3'')]
     = [(''a'', Value VT_NUMBER ''1''), (''b'', Value VT_NUMBER ''2''), (''a'', Value VT_NUMBER ''3'')]
   \<and> ''a'' \<notin> fst ` set [(''b'', Value VT_NUMBER ''2'')]
   \<and> Object_Get [(''b'', Value VT_NUMBER ''2''), (''a'', Value VT_NUMBER ''1''), (''a'', Value VT_NUMBER ''3'')] ''a''
       = Inr (Value VT_NUMBER ''1'')
   \<and> Object_Remove ''a'' [(''b'', Value VT_NUMBER ''2''), (''a'', Value VT_NUMBER ''1''), (''a'', Value VT_NUMBER ''3'')]
       = [(''b'', Value VT_NUMBER ''2''), (''a'', Value VT_NUMBER ''3'')]
   \<and> ''c'' \<notin> fst ` set [(''b'', Value VT_NUMBER ''2'')]
   \<and> Object_Get [(''b'', Value VT_NUMBER ''2'')] ''c'' = Inl NotFoundException
   \<and> Object_Remove ''c'' [(''b'', Value VT_NUMBER ''2'')] = [(''b'', Value VT_NUMBER ''2'')]"
  using object_order_and_first_match [of "[]"
      "[(''a'', Value VT_NUMBER ''1''), (''b'', Value VT_NUMBER ''2''), (''a'', Value VT_NUMBER ''3'')]"
      NoFormat 0 "''a''" "[(''b'', Value VT_NUMBER ''2'')]" "Value VT_NUMBER ''1''"
      "[(''a'', Value VT_NUMBER ''3'')]"]
    object_order_and_first_match [of "[(''b'', Value VT_NUMBER ''2'')]" "[]"
      NoFormat 0 "''c''" "[]" "Value VT_NUMBER ''1''" "[]"]
  by simp

subsection \<open>Formatting\<close>

text \<open>
  C9. The text \<open>{"a":1}\<close> parses into the object with the one entry \<open>a\<close>, the number 1.
  Written with all four settings off it is \<open>{"a":1}\<close> again; written with \<open>newline\<close> and
  \<open>spacing\<close> on, \<open>useTabs\<close> off and \<open>indentSize\<close> 1 it is: open brace, line feed, one space,
  the quoted name, colon, space, 1, line feed, close brace.
\<close>

theorem formatting_of_one_entry_object:
  \<open>Parse (Object []) ''{"a":1}'' = Success (Object [(''a'', Value VT_NUMBER ''1'')]) []
   \<and> Write (Object [(''a'', Value VT_NUMBER ''1'')])
        \<lparr>newline = False, spacing = False, useTabs = False, indentSize = 0\<rparr> = ''{"a":1}''
   \<and> Write (Object [(''a'', Value VT_NUMBER ''1'')])
        \<lparr>newline = True, spacing = True, useTabs = False, indentSize = 1\<rparr>
       = [CHR ''{'', CHR 0x0A, CHR '' '', CHR 0x22, CHR ''a'', CHR 0x22, CHR '':'', CHR '' '',
          CHR ''1'', CHR 0x0A, CHR ''}'']\<close>
  by code_simp

subsection \<open>Arrays\<close>

text \<open>
  C10. \<open>Array::Remove\<close> with an index that is not below the number of children returns
  without a change: the children and their count are what they were. The function has
  no \<open>throw\<close>; the model of it has no error outcome.
\<close>

theorem Array_Remove_out_of_range:
  "length children \<le> index \<Longrightarrow>
     Array_Remove index children = children
     \<and> GetCount (Array (Array_Remove index children)) = GetCount (Array children)"
  by (simp add: Array_Remove_def)

theorem Array_Remove_out_of_range_witness:
  "length [Value VT_NUMBER ''1''] \<le> (1::nat)
   \<and> Array_Remove 1 [Value VT_NUMBER ''1''] = [Value VT_NUMBER ''1'']
   \<and> GetCount (Array (Array_Remove 1 [Value VT_NUMBER ''1''])) = 1"
  using Array_Remove_out_of_range [of "[Value VT_NUMBER ''1'']" 1]
  by simp

subsection \<open>Round trip\<close>

declare tokenize_loop.simps [simp del]

lemma NoFormat_simps [simp]:
  "GetNewline NoFormat = []" "GetSpacing NoFormat = []" "GetIndentation NoFormat level = []"
  by (simp_all add: GetNewline_def GetSpacing_def GetIndentation_def NoFormat_def)

lemma tok_obj_begin:
  "tokenize_loop token [] tokens data (CHR ''{'' # rest)
     = tokenize_loop T_OBJ_BEGIN [] (tokens @ [T_OBJ_BEGIN]) data rest"
  by (simp add: tokenize_loop.simps IsWhitespace_def tokenize_switch_def)

lemma tok_array_begin:
  "tokenize_loop token [] tokens data (CHR ''['' # rest)
     = tokenize_loop T_ARRAY_BEGIN [] (tokens @ [T_ARRAY_BEGIN]) data rest"
  by (simp add: tokenize_loop.simps IsWhitespace_def tokenize_switch_def)

lemma tok_obj_end:
  "tokenize_loop token [] tokens data (CHR ''}'' # rest)
     = tokenize_loop T_OBJ_END [] (tokens @ [T_OBJ_END]) data rest"
  by (simp add: tokenize_loop.simps IsWhitespace_def tokenize_switch_def)

lemma tok_array_end:
  "tokenize_loop token [] tokens data (CHR '']'' # rest)
     = tokenize_loop T_ARRAY_END [] (tokens @ [T_ARRAY_END]) data rest"
  by (simp add: tokenize_loop.simps IsWhitespace_def tokenize_switch_def)

lemma tok_name_separator:
  "tokenize_loop token [] tokens data (CHR '':'' # rest)
     = tokenize_loop T_SEPARATOR_NAME [] (tokens @ [T_SEPARATOR_NAME]) data rest"
  by (simp add: tokenize_loop.simps IsWhitespace_def tokenize_switch_def)

lemma tok_delim_empty:
  "is_delim d \<Longrightarrow>
     tokenize_loop token [] tokens data (d # rest)
       = tokenize_loop (delim_token d) [] (tokens @ [delim_token d]) data rest"
  by (auto simp: is_delim_def delim_token_def tokenize_loop.simps IsWhitespace_def
      tokenize_switch_def)

lemma tok_delim_flush:
  "is_delim d \<Longrightarrow> n \<noteq> [] \<Longrightarrow> list_all IsNumberChar n \<Longrightarrow>
     tokenize_loop token n tokens data (d # rest)
       = tokenize_loop (delim_token d) [] (tokens @ [T_VALUE, delim_token d])
           (data @ [(VT_NUMBER, n)]) rest"
  by (auto simp: is_delim_def delim_token_def tokenize_loop.simps IsWhitespace_def
      tokenize_switch_def save_buffer_def interpretValue_eq)

lemma number_char_not_special:
  "IsNumberChar c \<Longrightarrow>
     c \<noteq> CHR ''{'' \<and> c \<noteq> CHR ''}'' \<and> c \<noteq> CHR ''['' \<and> c \<noteq> CHR '']'' \<and> c \<noteq> CHR '','' \<and> c \<noteq> CHR '':''
     \<and> c \<noteq> CHR 0x22 \<and> c \<noteq> CHR ''/'' \<and> \<not> IsWhitespace c"
  unfolding IsNumberChar_def isdigit_def IsWhitespace_def
  by (elim disjE) auto

lemma number_char_switch:
  "IsNumberChar c \<Longrightarrow>
     tokenize_switch c after token vb data = (token, False, vb @ [c], data, c # after)"
  using number_char_not_special [of c] by (simp add: tokenize_switch_def)

lemma tok_number_char:
  "IsNumberChar c \<Longrightarrow> rest \<noteq> [] \<Longrightarrow>
     tokenize_loop token vb tokens data (c # rest) = tokenize_loop token (vb @ [c]) tokens data rest"
  using number_char_not_special [of c]
  by (simp add: tokenize_loop.simps(2) [of token vb tokens data c rest] number_char_switch)

lemma tok_number_char_last:
  "IsNumberChar c \<Longrightarrow> list_all IsNumberChar vb \<Longrightarrow>
     tokenize_loop token vb tokens data [c] = (tokens @ [T_VALUE], data @ [(VT_NUMBER, vb @ [c])])"
  using number_char_not_special [of c]
  by (simp add: tokenize_loop.simps(2) [of token vb tokens data c "[]"] tokenize_loop.simps(1)
      number_char_switch save_buffer_def interpretValue_eq)

lemma tok_number_then:
  "list_all IsNumberChar n \<Longrightarrow> rest \<noteq> [] \<Longrightarrow>
     tokenize_loop token vb tokens data (n @ rest) = tokenize_loop token (vb @ n) tokens data rest"
  by (induction n arbitrary: vb) (simp_all add: tok_number_char)

lemma tok_number_last:
  "list_all IsNumberChar n \<Longrightarrow> list_all IsNumberChar vb \<Longrightarrow> n \<noteq> [] \<Longrightarrow>
     tokenize_loop token vb tokens data n = (tokens @ [T_VALUE], data @ [(VT_NUMBER, vb @ n)])"
proof (induction n arbitrary: vb)
  case Nil
  then show ?case by simp
next
  case (Cons c n)
  show ?case
  proof (cases "n = []")
    case True
    with Cons.prems show ?thesis
      by (simp add: tok_number_char_last)
  next
    case False
    with Cons.prems have "tokenize_loop token vb tokens data (c # n)
        = tokenize_loop token (vb @ [c]) tokens data n"
      by (simp add: tok_number_char)
    with Cons.IH [of "vb @ [c]"] Cons.prems False show ?thesis by simp
  qed
qed

lemma readString_loop_readable:
  "readable_after c1 s \<Longrightarrow>
     readString_loop c1 str (s @ CHR 0x22 # rest) = (str @ s, CHR 0x22 # rest)"
  by (induction s arbitrary: c1 str) auto

lemma tok_string:
  "readable_name s \<Longrightarrow>
     tokenize_loop token [] tokens data (CHR 0x22 # s @ CHR 0x22 # rest)
       = tokenize_loop T_VALUE [] (tokens @ [T_VALUE]) (data @ [(VT_STRING, s)]) rest"
  by (simp add: tokenize_loop.simps IsWhitespace_def tokenize_switch_def readString_def
      readString_loop_readable readable_name_def)

lemma escape_free_readable_after:
  "escape_free s \<Longrightarrow> c1 \<noteq> CHR 0x5C \<Longrightarrow> readable_after c1 s"
  by (induction s arbitrary: c1) (auto simp: escape_free_def chars_def)

lemma escape_free_readable_name: "escape_free s \<Longrightarrow> readable_name s"
  by (simp add: readable_name_def escape_free_readable_after)

lemma EscapeString_escape_free: "escape_free s \<Longrightarrow> EscapeString s = s"
  by (induction s) (auto simp: escape_free_def chars_def getEscaped_def nullEscaped_def)

lemma UnescapeString_escape_free: "escape_free s \<Longrightarrow> UnescapeString s = s"
  by (induction s rule: UnescapeString.induct)
    (auto simp: escape_free_def chars_def getUnescaped_eq)

lemma tokenizes_as_elementD:
  "tokenizes_as_element v \<Longrightarrow> is_delim d \<Longrightarrow>
     tokenize_loop token [] tokens data (writeNode NoFormat v level @ d # rest)
       = tokenize_loop (delim_token d) [] (tokens @ toks v @ [delim_token d]) (data @ dats v) rest"
  by (simp add: tokenizes_as_element_def)

lemma delim_simps [simp]:
  "is_delim (CHR '','')" "is_delim (CHR '']'')" "is_delim (CHR ''}'')"
  "delim_token (CHR '','') = T_SEPARATOR_NODE" "delim_token (CHR '']'') = T_ARRAY_END"
  "delim_token (CHR ''}'') = T_OBJ_END"
  by (simp_all add: is_delim_def delim_token_def)

lemma tok_object_tail:
  "tokenizes_as_element v \<Longrightarrow>
   list_all (\<lambda>e. readable_name (fst e) \<and> tokenizes_as_element (snd e)) r \<Longrightarrow>
     tokenize_loop token [] tokens data
         (writeNode NoFormat v lv @ writeObject_loop NoFormat False r level @ CHR ''}'' # rest)
       = tokenize_loop T_OBJ_END [] (tokens @ toks v @ etoks False r @ [T_OBJ_END])
           (data @ dats v @ edats r) rest"
proof (induction r arbitrary: v lv token tokens data)
  case Nil
  then show ?case
    by (simp add: tokenizes_as_elementD)
next
  case (Cons e r)
  then show ?case
    by (simp add: tokenizes_as_elementD tok_string tok_name_separator)
qed

lemma tok_array_tail:
  "tokenizes_as_element v \<Longrightarrow> list_all tokenizes_as_element r \<Longrightarrow>
     tokenize_loop token [] tokens data
         (writeNode NoFormat v lv @ writeArray_loop NoFormat False r level @ CHR '']'' # rest)
       = tokenize_loop T_ARRAY_END [] (tokens @ toks v @ atoks False r @ [T_ARRAY_END])
           (data @ dats v @ adats r) rest"
proof (induction r arbitrary: v lv token tokens data)
  case Nil
  then show ?case
    by (simp add: tokenizes_as_elementD)
next
  case (Cons e r)
  then show ?case
    by (simp add: tokenizes_as_elementD)
qed

lemma tok_object:
  "list_all (\<lambda>e. readable_name (fst e) \<and> tokenizes_as_element (snd e)) children \<Longrightarrow>
     tokenize_loop token [] tokens data (writeNode NoFormat (Object children) level @ rest)
       = tokenize_loop T_OBJ_END [] (tokens @ toks (Object children)) (data @ dats (Object children)) rest"
proof (cases children)
  case Nil
  then show ?thesis
    by (simp add: tok_obj_begin tok_obj_end)
next
  case (Cons e r)
  assume "list_all (\<lambda>e. readable_name (fst e) \<and> tokenizes_as_element (snd e)) children"
  with Cons show ?thesis
    by (simp add: tok_obj_begin tok_string tok_name_separator tok_object_tail)
qed

lemma tok_array:
  "list_all tokenizes_as_element children \<Longrightarrow>
     tokenize_loop token [] tokens data (writeNode NoFormat (Array children) level @ rest)
       = tokenize_loop T_ARRAY_END [] (tokens @ toks (Array children)) (data @ dats (Array children)) rest"
proof (cases children)
  case Nil
  then show ?thesis
    by (simp add: tok_array_begin tok_array_end)
next
  case (Cons e r)
  assume "list_all tokenizes_as_element children"
  with Cons show ?thesis
    by (simp add: tok_array_begin tok_array_tail)
qed

lemma plain_tokenizes_as_element: "plain v \<Longrightarrow> tokenizes_as_element v"
proof (induction v)
  case (Object children)
  then have children: "list_all (\<lambda>e. readable_name (fst e) \<and> tokenizes_as_element (snd e)) children"
    by (auto simp: list_all_iff)
  show ?case
    unfolding tokenizes_as_element_def
  proof (intro allI impI)
    fix token tokens data level d rest
    assume "is_delim d"
    then show "tokenize_loop token [] tokens data (writeNode NoFormat (Object children) level @ d # rest)
        = tokenize_loop (delim_token d) [] (tokens @ toks (Object children) @ [delim_token d])
            (data @ dats (Object children)) rest"
      using tok_object [OF children, of token tokens data level "d # rest"]
      by (simp add: tok_delim_empty)
  qed
next
  case (Array children)
  then have children: "list_all tokenizes_as_element children"
    by (auto simp: list_all_iff)
  show ?case
    unfolding tokenizes_as_element_def
  proof (intro allI impI)
    fix token tokens data level d rest
    assume "is_delim d"
    then show "tokenize_loop token [] tokens data (writeNode NoFormat (Array children) level @ d # rest)
        = tokenize_loop (delim_token d) [] (tokens @ toks (Array children) @ [delim_token d])
            (data @ dats (Array children)) rest"
      using tok_array [OF children, of token tokens data level "d # rest"]
      by (simp add: tok_delim_empty)
  qed
next
  case (Value t valueStr)
  show ?case
  proof (cases "t = VT_NUMBER")
    case True
    with Value show ?thesis
      by (simp add: tokenizes_as_element_def writeValue_def Value_ToString_def
          tok_number_then tok_delim_flush)
  next
    case False
    with Value show ?thesis
      by (simp add: tokenizes_as_element_def writeValue_def Value_ToString_def
          EscapeString_escape_free escape_free_readable_name tok_string tok_delim_empty)
  qed
qed

lemma tokenize_plain: "plain v \<Longrightarrow> tokenize (Write v NoFormat) = (toks v, dats v)"
proof (cases v)
  case (Object children)
  assume "plain v"
  with Object have "list_all (\<lambda>e. readable_name (fst e) \<and> tokenizes_as_element (snd e)) children"
    by (auto simp: list_all_iff plain_tokenizes_as_element)
  from tok_object [OF this, of T_UNKNOWN "[]" "[]" 0 "[]"] Object show ?thesis
    by (simp add: tokenize_def Write_def tokenize_loop.simps(1))
next
  case (Array children)
  assume "plain v"
  with Array have "list_all tokenizes_as_element children"
    by (auto simp: list_all_iff plain_tokenizes_as_element)
  from tok_array [OF this, of T_UNKNOWN "[]" "[]" 0 "[]"] Array show ?thesis
    by (simp add: tokenize_def Write_def tokenize_loop.simps(1))
next
  case (Value t valueStr)
  assume plain: "plain v"
  show ?thesis
  proof (cases "t = VT_NUMBER")
    case True
    with Value plain show ?thesis
      by (simp add: tokenize_def Write_def writeValue_def Value_ToString_def tok_number_last)
  next
    case False
    with Value plain show ?thesis
      using tok_string [of valueStr T_UNKNOWN "[]" "[]" "[]"]
      by (simp add: tokenize_def Write_def writeValue_def Value_ToString_def
          EscapeString_escape_free escape_free_readable_name tokenize_loop.simps(1))
  qed
qed

lemma top_node_with_top:
  "nodeStack \<noteq> [] \<Longrightarrow>
     top_node (snd (with_top n nodeStack root)) (fst (with_top n nodeStack root)) = n
     \<and> fst (with_top n nodeStack root) \<noteq> []"
proof (cases nodeStack)
  case Nil
  assume "nodeStack \<noteq> []"
  with Nil show ?thesis by simp
next
  case (Cons frame below)
  then show ?thesis
    by (cases "snd frame") (simp_all add: top_node_def with_top_def)
qed

lemma with_top_with_top:
  "nodeStack \<noteq> [] \<Longrightarrow>
     with_top m (fst (with_top n nodeStack root)) (snd (with_top n nodeStack root))
       = with_top m nodeStack root"
proof (cases nodeStack)
  case Nil
  assume "nodeStack \<noteq> []"
  with Nil show ?thesis by simp
next
  case (Cons frame below)
  then show ?thesis
    by (cases "snd frame") (simp_all add: with_top_def)
qed

lemma with_top_same:
  "nodeStack \<noteq> [] \<Longrightarrow> with_top (top_node root nodeStack) nodeStack root = (nodeStack, root)"
proof (cases nodeStack)
  case Nil
  assume "nodeStack \<noteq> []"
  with Nil show ?thesis by simp
next
  case (Cons frame below)
  then show ?thesis
    by (cases frame; cases "snd frame") (simp_all add: with_top_def top_node_def)
qed

lemma top_Add_container:
  "nodeStack \<noteq> [] \<Longrightarrow> is_container (top_node root nodeStack) \<Longrightarrow>
     top_Add name v nodeStack root
       = Some (with_top (append_child name v (top_node root nodeStack)) nodeStack root)"
  by (cases nodeStack; cases "top_node root nodeStack")
    (simp_all add: top_Add_def top_node_def with_top_def is_container_def IsObject_def IsArray_def
      Object_Add_def Array_Add_def)

lemma assembles_as_elementD:
  "assembles_as_element v \<Longrightarrow> nodeStack \<noteq> [] \<Longrightarrow> is_container (top_node root nodeStack) \<Longrightarrow>
   \<not> starts_with_name rtoks \<Longrightarrow>
     assemble_loop (toks v @ rtoks) (dats v @ rdata) nodeStack name root
       = assemble_at rtoks rdata []
           (with_top (append_child name v (top_node root nodeStack)) nodeStack root)"
  by (simp add: assembles_as_element_def)

lemma not_name_after_entries:
  "\<not> starts_with_name rtoks \<Longrightarrow> \<not> starts_with_name (etoks False r @ rtoks)"
  by (cases r) (simp_all add: starts_with_name_def)

lemma not_name_after_elements:
  "\<not> starts_with_name rtoks \<Longrightarrow> \<not> starts_with_name (atoks False r @ rtoks)"
  by (cases r) (simp_all add: starts_with_name_def)

lemma asm_name:
  "assemble_loop (T_VALUE # T_SEPARATOR_NAME # tokens) ((VT_STRING, s) # data) nodeStack name root
     = assemble_loop tokens data nodeStack s root"
  by simp

lemma asm_object_loop:
  "list_all (\<lambda>e. assembles_as_element (snd e)) children \<Longrightarrow> nodeStack \<noteq> [] \<Longrightarrow>
   top_node root nodeStack = Object acc \<Longrightarrow> \<not> starts_with_name rtoks \<Longrightarrow>
     assemble_loop (etoks first children @ rtoks) (edats children @ rdata) nodeStack [] root
       = assemble_at rtoks rdata [] (with_top (Object (acc @ children)) nodeStack root)"
proof (induction children arbitrary: acc nodeStack root first)
  case Nil
  then show ?case
    using with_top_same [of nodeStack root] by (simp add: assemble_at_def)
next
  case (Cons e r)
  let ?sr = "with_top (Object (acc @ [e])) nodeStack root"
  have container: "is_container (top_node root nodeStack)"
    using Cons.prems by (simp add: is_container_def IsObject_def)
  have "assemble_loop (etoks first (e # r) @ rtoks) (edats (e # r) @ rdata) nodeStack [] root
      = assemble_loop (toks (snd e) @ etoks False r @ rtoks) (dats (snd e) @ edats r @ rdata)
          nodeStack (fst e) root"
    by simp
  also have "\<dots> = assemble_at (etoks False r @ rtoks) (edats r @ rdata) [] ?sr"
    using Cons.prems container
    by (simp add: assembles_as_elementD not_name_after_entries)
  also have "\<dots> = assemble_at rtoks rdata [] (with_top (Object ((acc @ [e]) @ r)) (fst ?sr) (snd ?sr))"
    unfolding assemble_at_def [of "etoks False r @ rtoks"]
    using Cons.prems top_node_with_top [of nodeStack "Object (acc @ [e])" root]
    by (intro Cons.IH) simp_all
  finally show ?case
    using Cons.prems by (simp add: with_top_with_top)
qed

lemma asm_array_loop:
  "list_all assembles_as_element children \<Longrightarrow> nodeStack \<noteq> [] \<Longrightarrow>
   top_node root nodeStack = Array acc \<Longrightarrow> \<not> starts_with_name rtoks \<Longrightarrow>
     assemble_loop (atoks first children @ rtoks) (adats children @ rdata) nodeStack [] root
       = assemble_at rtoks rdata [] (with_top (Array (acc @ children)) nodeStack root)"
proof (induction children arbitrary: acc nodeStack root first)
  case Nil
  then show ?case
    using with_top_same [of nodeStack root] by (simp add: assemble_at_def)
next
  case (Cons e r)
  let ?sr = "with_top (Array (acc @ [e])) nodeStack root"
  have container: "is_container (top_node root nodeStack)"
    using Cons.prems by (simp add: is_container_def IsArray_def)
  have "assemble_loop (atoks first (e # r) @ rtoks) (adats (e # r) @ rdata) nodeStack [] root
      = assemble_loop (toks e @ atoks False r @ rtoks) (dats e @ adats r @ rdata)
          nodeStack [] root"
    by simp
  also have "\<dots> = assemble_at (atoks False r @ rtoks) (adats r @ rdata) [] ?sr"
    using Cons.prems container
    by (simp add: assembles_as_elementD not_name_after_elements)
  also have "\<dots> = assemble_at rtoks rdata [] (with_top (Array ((acc @ [e]) @ r)) (fst ?sr) (snd ?sr))"
    unfolding assemble_at_def [of "atoks False r @ rtoks"]
    using Cons.prems top_node_with_top [of nodeStack "Array (acc @ [e])" root]
    by (intro Cons.IH) simp_all
  finally show ?case
    using Cons.prems by (simp add: with_top_with_top)
qed

lemma asm_object:
  assumes children: "list_all (\<lambda>e. assembles_as_element (snd e)) children"
  shows "assembles_as_element (Object children)"
  unfolding assembles_as_element_def
proof (intro allI impI)
  fix rtoks rdata nodeStack name root
  assume stack: "nodeStack \<noteq> []" and container: "is_container (top_node root nodeStack)"
    and rtoks: "\<not> starts_with_name rtoks"
  let ?inner = "(name, Fresh (Object [])) # nodeStack"
  have "assemble_loop (toks (Object children) @ rtoks) (dats (Object children) @ rdata)
          nodeStack name root
      = assemble_loop (etoks True children @ T_OBJ_END # rtoks) (edats children @ rdata)
          ?inner [] root"
    using stack by simp
  also have "\<dots> = assemble_at (T_OBJ_END # rtoks) rdata []
      (with_top (Object ([] @ children)) ?inner root)"
    using children
    by (intro asm_object_loop) (simp_all add: top_node_def starts_with_name_def)
  also have "\<dots> = assemble_loop (T_OBJ_END # rtoks) rdata
      ((name, Fresh (Object children)) # nodeStack) [] root"
    by (simp add: assemble_at_def with_top_def)
  also have "\<dots> = assemble_at rtoks rdata []
      (with_top (append_child name (Object children) (top_node root nodeStack)) nodeStack root)"
    using stack container
    by (simp add: assemble_end_def IsObject_def top_Add_container assemble_at_def split_beta)
  finally show "assemble_loop (toks (Object children) @ rtoks) (dats (Object children) @ rdata)
          nodeStack name root
      = assemble_at rtoks rdata []
          (with_top (append_child name (Object children) (top_node root nodeStack)) nodeStack root)" .
qed

lemma asm_array:
  assumes children: "list_all assembles_as_element children"
  shows "assembles_as_element (Array children)"
  unfolding assembles_as_element_def
proof (intro allI impI)
  fix rtoks rdata nodeStack name root
  assume stack: "nodeStack \<noteq> []" and container: "is_container (top_node root nodeStack)"
    and rtoks: "\<not> starts_with_name rtoks"
  let ?inner = "(name, Fresh (Array [])) # nodeStack"
  have "assemble_loop (toks (Array children) @ rtoks) (dats (Array children) @ rdata)
          nodeStack name root
      = assemble_loop (atoks True children @ T_ARRAY_END # rtoks) (adats children @ rdata)
          ?inner [] root"
    using stack by simp
  also have "\<dots> = assemble_at (T_ARRAY_END # rtoks) rdata []
      (with_top (Array ([] @ children)) ?inner root)"
    using children
    by (intro asm_array_loop) (simp_all add: top_node_def starts_with_name_def)
  also have "\<dots> = assemble_loop (T_ARRAY_END # rtoks) rdata
      ((name, Fresh (Array children)) # nodeStack) [] root"
    by (simp add: assemble_at_def with_top_def)
  also have "\<dots> = assemble_at rtoks rdata []
      (with_top (append_child name (Array children) (top_node root nodeStack)) nodeStack root)"
    using stack container
    by (simp add: assemble_end_def IsArray_def top_Add_container assemble_at_def split_beta)
  finally show "assemble_loop (toks (Array children) @ rtoks) (dats (Array children) @ rdata)
          nodeStack name root
      = assemble_at rtoks rdata []
          (with_top (append_child name (Array children) (top_node root nodeStack)) nodeStack root)" .
qed

lemma Value_from_data_plain:
  "plain (Value t valueStr) \<Longrightarrow> Value_from_data (t, valueStr) = Value t valueStr"
  by (simp add: Value_from_data_def UnescapeString_escape_free)

lemma asm_value:
  assumes "plain (Value t valueStr)"
  shows "assembles_as_element (Value t valueStr)"
  unfolding assembles_as_element_def
proof (intro allI impI)
  fix rtoks rdata nodeStack name root
  assume "nodeStack \<noteq> []" "is_container (top_node root nodeStack)" "\<not> starts_with_name rtoks"
  then show "assemble_loop (toks (Value t valueStr) @ rtoks) (dats (Value t valueStr) @ rdata)
          nodeStack name root
      = assemble_at rtoks rdata []
          (with_top (append_child name (Value t valueStr) (top_node root nodeStack)) nodeStack root)"
    using Value_from_data_plain [OF assms]
    by (auto simp: starts_with_name_def top_Add_container assemble_at_def split_beta)
qed

lemma plain_assembles_as_element: "plain v \<Longrightarrow> assembles_as_element v"
proof (induction v)
  case (Object children)
  then have "list_all (\<lambda>e. assembles_as_element (snd e)) children"
    by (auto simp: list_all_iff)
  then show ?case by (rule asm_object)
next
  case (Array children)
  then have "list_all assembles_as_element children"
    by (auto simp: list_all_iff)
  then show ?case by (rule asm_array)
next
  case (Value t valueStr)
  then show ?case by (rule asm_value)
qed

lemma assemble_plain:
  "plain v \<Longrightarrow>
     assemble (toks v) (dats v) (fresh_root v)
       = Success v (if IsValue v then [([], RootRef)] else [])"
proof (cases v)
  case (Object children)
  assume "plain v"
  with Object have children: "list_all (\<lambda>e. assembles_as_element (snd e)) children"
    by (auto simp: list_all_iff plain_assembles_as_element)
  have "assemble_loop (etoks True children @ [T_OBJ_END]) (edats children @ []) [([], RootRef)] []
          (Object [])
      = assemble_at [T_OBJ_END] [] [] (with_top (Object ([] @ children)) [([], RootRef)] (Object []))"
    using children
    by (intro asm_object_loop) (simp_all add: top_node_def starts_with_name_def)
  with Object show ?thesis
    by (simp add: assemble_def IsObject_def IsValue_def assemble_at_def with_top_def
        assemble_end_def)
next
  case (Array children)
  assume "plain v"
  with Array have children: "list_all assembles_as_element children"
    by (auto simp: list_all_iff plain_assembles_as_element)
  have "assemble_loop (atoks True children @ [T_ARRAY_END]) (adats children @ []) [([], RootRef)] []
          (Array [])
      = assemble_at [T_ARRAY_END] [] [] (with_top (Array ([] @ children)) [([], RootRef)] (Array []))"
    using children
    by (intro asm_array_loop) (simp_all add: top_node_def starts_with_name_def)
  with Array show ?thesis
    by (simp add: assemble_def IsArray_def IsValue_def assemble_at_def with_top_def
        assemble_end_def)
next
  case (Value t valueStr)
  assume "plain v"
  with Value show ?thesis
    using Value_from_data_plain [of t valueStr]
    by (simp add: assemble_def IsValue_def Value_default_def)
qed

text \<open>
  C1 as stated fails. Names are written between quotes as they are and read up to the
  next quote that no backslash precedes, so an object built with \<open>Add\<close> under the name
  \<open>a"b\<close> does not come back: its compact text is \<open>{"a"b":1}\<close>, the parse of that text
  fails on an unknown token, leaving the root with one entry of the empty name, and the
  second text differs from the first.
\<close>

theorem round_trip_fails_on_quote_in_name:
  \<open>Object (Object_Add ''a"b'' (Value VT_NUMBER ''1'') []) = Object [(''a"b'', Value VT_NUMBER ''1'')]
   \<and> Write (Object [(''a"b'', Value VT_NUMBER ''1'')]) NoFormat = ''{"a"b":1}''
   \<and> Parse (fresh_root (Object [(''a"b'', Value VT_NUMBER ''1'')]))
         (Write (Object [(''a"b'', Value VT_NUMBER ''1'')]) NoFormat)
       = Failure ''Unknown token: :1}'' (Object [([], Value VT_STRING ''a'')])
   \<and> Write (Object [([], Value VT_STRING ''a'')]) NoFormat = ''{"":"a"}''
   \<and> Write (Object [([], Value VT_STRING ''a'')]) NoFormat
       \<noteq> Write (Object [(''a"b'', Value VT_NUMBER ''1'')]) NoFormat\<close>
  by code_simp

text \<open>
  C1 (amended). For every plain tree \<open>T\<close> (leaves that are Numbers with a text of digits,
  dots and minus signs that is not empty, or Strings without a character of the escape
  table; names in which every double quote follows a backslash directly and which do not
  end in a backslash), writing \<open>T\<close> in the compact format and parsing the text into a
  fresh root of the kind of \<open>T\<close> succeeds and makes the root equal to \<open>T\<close>: shape, order,
  names and kinds are those of \<open>T\<close>, and writing the parsed tree again gives the first
  text. At the end the stack is empty for an object or an array and holds the root for a
  value.
\<close>

theorem round_trip_plain:
  "plain T \<Longrightarrow>
     Parse (fresh_root T) (Write T NoFormat) = Success T (if IsValue T then [([], RootRef)] else [])
     \<and> (\<forall>T' nodeStack. Parse (fresh_root T) (Write T NoFormat) = Success T' nodeStack
           \<longrightarrow> Write T' NoFormat = Write T NoFormat)"
  by (simp add: Parse_def tokenize_plain assemble_plain)

theorem round_trip_plain_witness:
  \<open>plain (Object [(''a'', Array [Value VT_NUMBER ''-1.5'', Value VT_STRING ''x y'', Array []]),
                   (''a'', Object [([], Value VT_NUMBER ''2'')])])
   \<and> Write (Object [(''a'', Array [Value VT_NUMBER ''-1.5'', Value VT_STRING ''x y'', Array []]),
                   (''a'', Object [([], Value VT_NUMBER ''2'')])]) NoFormat
       = ''{"a":[-1.5,"x y",[]],"a":{"":2}}''
   \<and> Parse (Object []) ''{"a":[-1.5,"x y",[]],"a":{"":2}}''
       = Success (Object [(''a'', Array [Value VT_NUMBER ''-1.5'', Value VT_STRING ''x y'', Array []]),
                          (''a'', Object [([], Value VT_NUMBER ''2'')])]) []\<close>
proof -
  let ?T = \<open>Object [(''a'', Array [Value VT_NUMBER ''-1.5'', Value VT_STRING ''x y'', Array []]),
                   (''a'', Object [([], Value VT_NUMBER ''2'')])]\<close>
  have p: "plain ?T"
    by code_simp
  have w: \<open>Write ?T NoFormat = ''{"a":[-1.5,"x y",[]],"a":{"":2}}''\<close>
    by code_simp
  have "Parse (fresh_root ?T) (Write ?T NoFormat) = Success ?T []"
    using conjunct1 [OF round_trip_plain [OF p]]
    unfolding IsValue_def GetType.simps by simp
  then have r: \<open>Parse (Object []) ''{"a":[-1.5,"x y",[]],"a":{"":2}}'' = Success ?T []\<close>
    unfolding w by (simp only: fresh_root.simps)
  from p w r show ?thesis
    by (intro conjI)
qed

end
